theory Spec2Isabelle
  imports Complex_Main "HOL-Library.Sublist"
begin

section \<open>The annotation layout of annotate\_image.py\<close>

text \<open>
  The layout code lives in \<^verbatim>\<open>src/annotate_image.py\<close>. Pixel coordinates are Python
  integers, hence \<open>int\<close>. A rectangle is the tuple \<open>(x1, y1, x2, y2)\<close>, a detection box
  is the tuple \<open>(x, y, w, h)\<close>, a colour is a BGR triple. Relevance scores are Python
  floats: a finite value, an infinity or NaN. They are only compared, which is exact on
  the values, so a finite float is its value in \<open>real\<close>.
\<close>

type_synonym rect = "int \<times> int \<times> int \<times> int"
type_synonym bbox = "int \<times> int \<times> int \<times> int"
type_synonym color = "int \<times> int \<times> int"

subsection \<open>Floats\<close>

datatype pyfloat = Finite real | PosInf | NegInf | NaN

text \<open>The comparisons \<^verbatim>\<open><\<close> and \<^verbatim>\<open><=\<close> of floats: false whenever an argument is NaN.\<close>

fun float_lt :: "pyfloat \<Rightarrow> pyfloat \<Rightarrow> bool" where
  "float_lt (Finite x) (Finite y) = (x < y)"
| "float_lt (Finite x) PosInf = True"
| "float_lt NegInf (Finite y) = True"
| "float_lt NegInf PosInf = True"
| "float_lt _ _ = False"

fun float_le :: "pyfloat \<Rightarrow> pyfloat \<Rightarrow> bool" where
  "float_le (Finite x) (Finite y) = (x \<le> y)"
| "float_le NaN _ = False"
| "float_le _ NaN = False"
| "float_le NegInf _ = True"
| "float_le _ PosInf = True"
| "float_le _ _ = False"

text \<open>
  The builtins \<^verbatim>\<open>min(a, b)\<close> and \<^verbatim>\<open>max(a, b)\<close> keep \<open>a\<close> unless \<open>b\<close> is strictly smaller,
  respectively strictly greater.
\<close>

definition py_min :: "pyfloat \<Rightarrow> pyfloat \<Rightarrow> pyfloat" where
  "py_min a b = (if float_lt b a then b else a)"

definition py_max :: "pyfloat \<Rightarrow> pyfloat \<Rightarrow> pyfloat" where
  "py_max a b = (if float_lt a b then b else a)"

text \<open>
  The literals \<^verbatim>\<open>0.33\<close> and \<^verbatim>\<open>0.66\<close> are IEEE doubles: the values
  \<open>5944751508129055 / 2^54\<close> and \<open>5944751508129055 / 2^53\<close>, slightly above 33/100 and
  66/100.
\<close>

definition double_0_33 :: real where
  "double_0_33 = 5944751508129055 / 18014398509481984"

definition double_0_66 :: real where
  "double_0_66 = 5944751508129055 / 9007199254740992"

subsection \<open>get\_color\_for\_relevance\<close>

text \<open>The first statement of the function: \<^verbatim>\<open>max(0.0, min(1.0, score))\<close>.\<close>

definition clamp_score :: "pyfloat \<Rightarrow> pyfloat" where
  "clamp_score score0 = py_max (Finite 0) (py_min (Finite 1) score0)"

definition get_color_for_relevance :: "pyfloat \<Rightarrow> color" where
  "get_color_for_relevance score0 =
     (let score = clamp_score score0 in
      if float_le score (Finite double_0_33) then (0, 0, 255)
      else if float_le score (Finite double_0_66) then (0, 255, 255)
      else (0, 255, 0))"

text \<open>The position of a colour in the order red, yellow, green (BGR triples).\<close>

definition tier_of :: "color \<Rightarrow> nat" where
  "tier_of c = (if c = (0, 0, 255) then 0 else if c = (0, 255, 255) then 1 else 2)"

subsection \<open>check\_overlap\<close>

fun check_overlap :: "rect \<Rightarrow> rect \<Rightarrow> bool" where
  "check_overlap (x1_1, y1_1, x2_1, y2_1) (x1_2, y1_2, x2_2, y2_2) =
     (if x1_1 \<ge> x2_2 \<or> x2_1 \<le> x1_2 \<or> y1_1 \<ge> y2_2 \<or> y2_1 \<le> y1_2 then False
      else True)"

subsection \<open>Strings: split and strip\<close>

text \<open>
  \<^verbatim>\<open>str.split(' ')\<close> cuts at every single space character and keeps empty pieces;
  the empty string gives one empty piece.
\<close>

fun split_space :: "string \<Rightarrow> string list" where
  "split_space [] = [[]]"
| "split_space (c # cs) =
     (if c = CHR '' '' then [] # split_space cs
      else (case split_space cs of [] \<Rightarrow> [[c]] | p # ps \<Rightarrow> (c # p) # ps))"

text \<open>
  \<^verbatim>\<open>str.strip()\<close> removes whitespace at both ends. Characters are 8-bit code points;
  the whitespace among them is tab to carriage return, the four separators 28 to 31,
  the space, NEL (133) and the no-break space (160).
\<close>

definition isspace :: "char \<Rightarrow> bool" where
  "isspace c = ((of_char c :: nat) \<in> {9, 10, 11, 12, 13, 28, 29, 30, 31, 32, 133, 160})"

definition strip :: "string \<Rightarrow> string" where
  "strip s = rev (dropWhile isspace (rev (dropWhile isspace s)))"

subsection \<open>The annotation lines of one profile\<close>

text \<open>
  The font is fixed in \<open>annotate_image\<close>, so \<^verbatim>\<open>cv2.getTextSize(line, font, ...)[0]\<close> is
  a function from the line to its pixel size \<open>(width, height)\<close>. OpenCV is not part of
  the repository: the function is a parameter, \<open>getTextSize\<close>. The formatting
  \<^verbatim>\<open>f"{score:.2f}"\<close> of a float is a parameter as well, \<open>fmt\<close>.
\<close>

type_synonym text_size = "string \<Rightarrow> int \<times> int"

definition text_block_max_width :: int where
  "text_block_max_width = 250"

definition qr_box_padding :: int where
  "qr_box_padding = 5"

definition box_thickness :: int where
  "box_thickness = 2"

text \<open>
  The loop over \<open>bio_words\<close>: the remaining words, \<open>current_bio_line\<close> and
  \<open>lines_for_annotation\<close>; it returns the last two.
\<close>

fun wrap_bio :: "text_size \<Rightarrow> string list \<Rightarrow> string \<Rightarrow> string list \<Rightarrow> string list \<times> string" where
  "wrap_bio getTextSize [] current_bio_line lines = (lines, current_bio_line)"
| "wrap_bio getTextSize (word # ws) current_bio_line lines =
     (let test_line = strip (current_bio_line @ '' '' @ word);
          line_w = fst (getTextSize test_line)
      in if line_w > text_block_max_width \<and> current_bio_line \<noteq> ''Bio:''
         then wrap_bio getTextSize ws word (lines @ [current_bio_line])
         else wrap_bio getTextSize ws test_line lines)"

text \<open>The loop over a list of words followed by the final append, from given lines.\<close>

definition wrap_words :: "text_size \<Rightarrow> string list \<Rightarrow> string list \<Rightarrow> string list" where
  "wrap_words getTextSize bio_words lines0 =
     (case wrap_bio getTextSize bio_words ''Bio:'' lines0 of
        (lines, current_bio_line) \<Rightarrow>
          if current_bio_line \<noteq> [] then lines @ [current_bio_line] else lines)"

definition lines_for_annotation :: "text_size \<Rightarrow> (pyfloat \<Rightarrow> string) \<Rightarrow> string \<Rightarrow> pyfloat \<Rightarrow> string \<Rightarrow> string list" where
  "lines_for_annotation getTextSize fmt name_to_display score bio_to_display =
     wrap_words getTextSize (split_space bio_to_display)
       [''Name: '' @ name_to_display, ''Score: '' @ fmt score]"

subsection \<open>get\_text\_block\_dimensions and draw\_multiline\_text\_with\_background\<close>

definition actual_max_line_width :: "text_size \<Rightarrow> string list \<Rightarrow> int" where
  "actual_max_line_width getTextSize text_lines =
     fold (\<lambda>line a. if fst (getTextSize line) > a then fst (getTextSize line) else a)
       text_lines 0"

definition get_text_block_dimensions :: "text_size \<Rightarrow> string list \<Rightarrow> int \<Rightarrow> int \<times> int" where
  "get_text_block_dimensions getTextSize text_lines max_width =
     (if text_lines = [] then (0, 0)
      else
        let sample_line_height = snd (getTextSize ''Tg'');
            line_height_with_spacing = sample_line_height + 5;
            bg_width = min (actual_max_line_width getTextSize text_lines) max_width;
            bg_height = int (length text_lines) * line_height_with_spacing - 5;
            padding = 5
        in (bg_width + 2 * padding, bg_height + 2 * padding))"

text \<open>
  The image is the list of drawing calls made on it so far: \<^verbatim>\<open>cv2.rectangle\<close> with its two
  corners, colour and thickness (\<open>cv2.FILLED\<close> is \<open>-1\<close>), and \<^verbatim>\<open>cv2.putText\<close> with the
  line, its origin and colour.
\<close>

datatype cv_call =
    CvRectangle "int \<times> int" "int \<times> int" color int
  | CvPutText string "int \<times> int" color

definition FILLED :: int where
  "FILLED = - 1"

fun put_text_lines :: "string list \<Rightarrow> int \<Rightarrow> int \<Rightarrow> int \<Rightarrow> color \<Rightarrow> cv_call list" where
  "put_text_lines [] x current_y line_height_with_spacing font_color0 = []"
| "put_text_lines (line # ls) x current_y line_height_with_spacing font_color0 =
     CvPutText line (x, current_y) font_color0
       # put_text_lines ls x (current_y + line_height_with_spacing)
           line_height_with_spacing font_color0"

definition draw_multiline_text_with_background ::
  "text_size \<Rightarrow> cv_call list \<Rightarrow> string list \<Rightarrow> int \<times> int \<Rightarrow> color \<Rightarrow> color \<Rightarrow> int
     \<Rightarrow> cv_call list \<times> rect" where
  "draw_multiline_text_with_background getTextSize image0 text_lines position font_color0
       bg_color max_width =
     (case position of (x, y) \<Rightarrow>
      if text_lines = [] then (image0, (x, y, x, y))
      else
        let sample_line_height = snd (getTextSize ''Tg'');
            line_height_with_spacing = sample_line_height + 5;
            bg_width = min (actual_max_line_width getTextSize text_lines) max_width;
            bg_height = int (length text_lines) * line_height_with_spacing - 5;
            padding = 5;
            bg_x1 = x - padding;
            bg_y1 = y - padding;
            bg_x2 = x + bg_width + padding;
            bg_y2 = y + bg_height + padding
        in (image0 @ [CvRectangle (bg_x1, bg_y1) (bg_x2, bg_y2) bg_color FILLED]
              @ put_text_lines text_lines x (y + sample_line_height)
                  line_height_with_spacing font_color0,
            (bg_x1, bg_y1, bg_x2, bg_y2)))"

subsection \<open>Placement of one text block\<close>

definition candidate_positions :: "bbox \<Rightarrow> int \<Rightarrow> int \<Rightarrow> (int \<times> int) list" where
  "candidate_positions b text_w text_h =
     (case b of (qr_x, qr_y, qr_w, qr_h) \<Rightarrow>
        [(qr_x + qr_w + qr_box_padding, qr_y),
         (qr_x - text_w - qr_box_padding, qr_y),
         (qr_x, qr_y + qr_h + qr_box_padding),
         (qr_x, qr_y - text_h - qr_box_padding),
         (qr_x + qr_w div 2 - text_w div 2, qr_y + qr_h + qr_box_padding),
         (qr_x + qr_w div 2 - text_w div 2, qr_y - text_h - qr_box_padding)])"

text \<open>The background rectangle \<open>(cand_bg_x1, cand_bg_y1, cand_bg_x2, cand_bg_y2)\<close>.\<close>

definition candidate_rect :: "int \<times> int \<Rightarrow> int \<Rightarrow> int \<Rightarrow> rect" where
  "candidate_rect cand text_w text_h =
     (case cand of (cand_x, cand_y) \<Rightarrow>
        let padding_for_bg = 5
        in (cand_x - padding_for_bg, cand_y - padding_for_bg,
            cand_x + text_w - padding_for_bg, cand_y + text_h - padding_for_bg))"

fun is_overlapping :: "rect \<Rightarrow> rect list \<Rightarrow> bool" where
  "is_overlapping candidate [] = False"
| "is_overlapping candidate (occupied_rect # rs) =
     (if check_overlap candidate occupied_rect then True else is_overlapping candidate rs)"

text \<open>The loop over the candidates; \<open>None\<close> is \<open>best_pos\<close> left at \<^verbatim>\<open>None\<close>.\<close>

fun search_candidates ::
  "(int \<times> int) list \<Rightarrow> int \<Rightarrow> int \<Rightarrow> int \<Rightarrow> int \<Rightarrow> rect list \<Rightarrow> (int \<times> int) option" where
  "search_candidates [] text_w text_h img_w img_h occupied_regions = None"
| "search_candidates (cand # cs) text_w text_h img_w img_h occupied_regions =
     (case candidate_rect cand text_w text_h of
        (cand_bg_x1, cand_bg_y1, cand_bg_x2, cand_bg_y2) \<Rightarrow>
          if cand_bg_x1 < 0 \<or> cand_bg_y1 < 0 \<or> cand_bg_x2 > img_w \<or> cand_bg_y2 > img_h
          then search_candidates cs text_w text_h img_w img_h occupied_regions
          else if is_overlapping (cand_bg_x1, cand_bg_y1, cand_bg_x2, cand_bg_y2)
                    occupied_regions
          then search_candidates cs text_w text_h img_w img_h occupied_regions
          else Some cand)"

definition find_best_pos ::
  "bbox \<Rightarrow> int \<Rightarrow> int \<Rightarrow> int \<Rightarrow> int \<Rightarrow> rect list \<Rightarrow> (int \<times> int) option" where
  "find_best_pos b text_w text_h img_w img_h occupied_regions =
     search_candidates (candidate_positions b text_w text_h) text_w text_h img_w img_h
       occupied_regions"

text \<open>The fallback taken when \<open>best_pos\<close> is \<^verbatim>\<open>None\<close>.\<close>

definition fallback_pos :: "bbox \<Rightarrow> int \<Rightarrow> int \<Rightarrow> int \<Rightarrow> int \<Rightarrow> int \<times> int" where
  "fallback_pos b text_w text_h img_w img_h =
     (case b of (qr_x, qr_y, qr_w, qr_h) \<Rightarrow>
        let best_pos_x = qr_x + qr_w + qr_box_padding;
            best_pos_y = qr_y + 5;
            best_pos_x = (if best_pos_x + text_w - 5 > img_w then img_w - text_w + 5
                          else best_pos_x);
            best_pos_y = (if best_pos_y + text_h - 5 > img_h then img_h - text_h + 5
                          else best_pos_y);
            best_pos_x = (if best_pos_x < 5 then 5 else best_pos_x);
            best_pos_y = (if best_pos_y < 5 then 5 else best_pos_y)
        in (best_pos_x, best_pos_y))"

text \<open>The last adjustment of \<open>(final_text_x, final_text_y)\<close> before drawing.\<close>

definition final_text_pos :: "int \<times> int \<Rightarrow> int \<times> int" where
  "final_text_pos best_pos =
     (case best_pos of (final_text_x, final_text_y) \<Rightarrow>
        let bg_padding = 5;
            final_text_y = (if final_text_y - bg_padding < 0 then bg_padding
                            else final_text_y);
            final_text_x = (if final_text_x - bg_padding < 0 then bg_padding
                            else final_text_x)
        in (final_text_x, final_text_y))"

text \<open>
  The position at which the block is drawn: the first accepted candidate, or else the
  fallback, after the last adjustment.
\<close>

definition place_block :: "bbox \<Rightarrow> int \<Rightarrow> int \<Rightarrow> int \<Rightarrow> int \<Rightarrow> rect list \<Rightarrow> int \<times> int" where
  "place_block b text_w text_h img_w img_h occupied =
     final_text_pos
       (case find_best_pos b text_w text_h img_w img_h occupied of
          Some best_pos \<Rightarrow> best_pos
        | None \<Rightarrow> fallback_pos b text_w text_h img_w img_h)"

subsection \<open>annotate\_image: one pass over the ranked profiles\<close>

text \<open>
  A detection is a dictionary that may lack the keys \<^verbatim>\<open>"id"\<close> and \<^verbatim>\<open>"bbox"\<close>; a profile
  is a dictionary that may lack \<^verbatim>\<open>"name"\<close> and \<^verbatim>\<open>"bio"\<close>.
\<close>

record detection =
  det_id :: "string option"
  det_bbox :: "bbox option"

record profile =
  name :: "string option"
  bio :: "string option"

text \<open>The dictionary comprehension: a later detection with the same id wins.\<close>

definition detections_map :: "detection list \<Rightarrow> (string \<rightharpoonup> bbox)" where
  "detections_map all_detections =
     fold (\<lambda>det m. case (det_id det, det_bbox det) of
                      (Some i, Some b) \<Rightarrow> m(i \<mapsto> b)
                    | _ \<Rightarrow> m)
       all_detections Map.empty"

definition name_to_display :: "(string \<rightharpoonup> profile) \<Rightarrow> string \<Rightarrow> string" where
  "name_to_display profiles_data profile_id =
     (case profiles_data profile_id of
        None \<Rightarrow> profile_id
      | Some profile_info \<Rightarrow>
          (case name profile_info of None \<Rightarrow> profile_id | Some n \<Rightarrow> n))"

definition bio_to_display :: "(string \<rightharpoonup> profile) \<Rightarrow> string \<Rightarrow> string" where
  "bio_to_display profiles_data profile_id =
     (case profiles_data profile_id of
        None \<Rightarrow> ''Bio not available.''
      | Some profile_info \<Rightarrow>
          (case bio profile_info of None \<Rightarrow> ''Bio not available.'' | Some b \<Rightarrow> b))"

text \<open>The annotation lines and the block size of one ranked profile.\<close>

definition profile_lines ::
  "text_size \<Rightarrow> (pyfloat \<Rightarrow> string) \<Rightarrow> (string \<rightharpoonup> profile) \<Rightarrow> string \<times> pyfloat \<Rightarrow> string list" where
  "profile_lines getTextSize fmt profiles_data p =
     (case p of (profile_id, score) \<Rightarrow>
        lines_for_annotation getTextSize fmt (name_to_display profiles_data profile_id)
          score (bio_to_display profiles_data profile_id))"

definition profile_dims ::
  "text_size \<Rightarrow> (pyfloat \<Rightarrow> string) \<Rightarrow> (string \<rightharpoonup> profile) \<Rightarrow> string \<times> pyfloat \<Rightarrow> int \<times> int" where
  "profile_dims getTextSize fmt profiles_data p =
     get_text_block_dimensions getTextSize (profile_lines getTextSize fmt profiles_data p)
       text_block_max_width"

record pass_state =
  image_calls :: "cv_call list"
  occupied_regions :: "rect list"

definition font_color :: color where
  "font_color = (0, 0, 0)"

definition text_bg_color :: color where
  "text_bg_color = (250, 250, 240)"

text \<open>One iteration of the loop over \<open>ranked_profiles\<close>.\<close>

definition annotate_profile ::
  "text_size \<Rightarrow> (pyfloat \<Rightarrow> string) \<Rightarrow> int \<Rightarrow> int \<Rightarrow> (string \<rightharpoonup> bbox) \<Rightarrow> (string \<rightharpoonup> profile)
     \<Rightarrow> pass_state \<Rightarrow> string \<times> pyfloat \<Rightarrow> pass_state" where
  "annotate_profile getTextSize fmt img_w img_h dmap profiles_data st p =
     (case p of (profile_id, score) \<Rightarrow>
      case dmap profile_id of
        None \<Rightarrow> st
      | Some (qr_x, qr_y, qr_w, qr_h) \<Rightarrow>
          let image1 = image_calls st @
                [CvRectangle (qr_x, qr_y) (qr_x + qr_w, qr_y + qr_h)
                   (get_color_for_relevance score) box_thickness];
              lines = profile_lines getTextSize fmt profiles_data (profile_id, score)
          in (case get_text_block_dimensions getTextSize lines text_block_max_width of
                (text_w, text_h) \<Rightarrow>
                  if text_w = 0 \<or> text_h = 0 then st\<lparr>image_calls := image1\<rparr>
                  else
                    (case draw_multiline_text_with_background getTextSize image1 lines
                            (place_block (qr_x, qr_y, qr_w, qr_h) text_w text_h img_w img_h
                               (occupied_regions st))
                            font_color text_bg_color text_block_max_width of
                       (image2, drawn_rect) \<Rightarrow>
                         \<lparr>image_calls = image2,
                          occupied_regions = occupied_regions st @ [drawn_rect]\<rparr>)))"

fun annotate_loop ::
  "text_size \<Rightarrow> (pyfloat \<Rightarrow> string) \<Rightarrow> int \<Rightarrow> int \<Rightarrow> (string \<rightharpoonup> bbox) \<Rightarrow> (string \<rightharpoonup> profile)
     \<Rightarrow> pass_state \<Rightarrow> (string \<times> pyfloat) list \<Rightarrow> pass_state" where
  "annotate_loop getTextSize fmt img_w img_h dmap profiles_data st [] = st"
| "annotate_loop getTextSize fmt img_w img_h dmap profiles_data st (p # ps) =
     annotate_loop getTextSize fmt img_w img_h dmap profiles_data
       (annotate_profile getTextSize fmt img_w img_h dmap profiles_data st p) ps"

text \<open>
  The pass of \<open>annotate_image\<close> on an image of size \<open>img_w\<close> by \<open>img_h\<close> that was read
  successfully: it starts with no drawing call and no occupied region.
\<close>

definition annotate_image ::
  "text_size \<Rightarrow> (pyfloat \<Rightarrow> string) \<Rightarrow> int \<Rightarrow> int \<Rightarrow> (string \<times> pyfloat) list \<Rightarrow> detection list
     \<Rightarrow> (string \<rightharpoonup> profile) \<Rightarrow> pass_state" where
  "annotate_image getTextSize fmt img_w img_h ranked_profiles all_detections profiles_data =
     annotate_loop getTextSize fmt img_w img_h (detections_map all_detections)
       profiles_data \<lparr>image_calls = [], occupied_regions = []\<rparr> ranked_profiles"

subsection \<open>Fixtures for concrete evaluation\<close>

text \<open>
  A fixed-pitch font, 6 pixels a character and 8 pixels high, and a score formatter that
  ignores its argument, to run the layout on concrete inputs.
\<close>

definition mono_font :: text_size where
  "mono_font s = (6 * int (length s), 8)"

definition fmt_half :: "pyfloat \<Rightarrow> string" where
  "fmt_half s = ''0.50''"

definition two_detections :: "detection list" where
  "two_detections =
     [\<lparr>det_id = Some ''a'', det_bbox = Some (50, 50, 60, 60)\<rparr>,
      \<lparr>det_id = Some ''b'', det_bbox = Some (70, 70, 60, 60)\<rparr>]"

subsection \<open>Predicates used in the statements\<close>

text \<open>A rectangle inside the canvas \<open>[0,W] \<times> [0,H]\<close>.\<close>

definition in_canvas :: "int \<Rightarrow> int \<Rightarrow> rect \<Rightarrow> bool" where
  "in_canvas W H r = (case r of (x1, y1, x2, y2) \<Rightarrow> 0 \<le> x1 \<and> 0 \<le> y1 \<and> x2 \<le> W \<and> y2 \<le> H)"

text \<open>
  A candidate is accepted when its background rectangle is inside the canvas and
  overlaps no occupied region.
\<close>

definition acceptable :: "int \<Rightarrow> int \<Rightarrow> int \<Rightarrow> int \<Rightarrow> rect list \<Rightarrow> int \<times> int \<Rightarrow> bool" where
  "acceptable text_w text_h W H occupied cand =
     (in_canvas W H (candidate_rect cand text_w text_h)
      \<and> (\<forall>r\<in>set occupied. \<not> check_overlap (candidate_rect cand text_w text_h) r))"


text \<open>The non-empty pieces of a string between its spaces.\<close>

definition nonempty_pieces :: "string \<Rightarrow> string list" where
  "nonempty_pieces s = filter (\<lambda>p. p \<noteq> []) (split_space s)"

section \<open>Theorems\<close>

subsection \<open>Colour tiers\<close>

text \<open>
  The two thresholds are the doubles nearest to 33/100 and 66/100: each is above the
  decimal, by less than half a unit in the last place.
\<close>

lemma double_thresholds_nearest:
  "33 / 100 < double_0_33 \<and> double_0_33 - 33 / 100 < 1 / 36028797018963968
   \<and> 66 / 100 < double_0_66 \<and> double_0_66 - 66 / 100 < 1 / 18014398509481984"
  by (simp add: double_0_33_def double_0_66_def)

lemma double_thresholds_order:
  "0 < double_0_33" "double_0_33 < double_0_66" "double_0_66 < 1"
  by (simp_all add: double_0_33_def double_0_66_def)

lemma clamp_score_Finite: "clamp_score (Finite x) = Finite (max 0 (min 1 x))"
  by (auto simp: clamp_score_def py_min_def py_max_def)

lemma clamp_score_other:
  "clamp_score PosInf = Finite 1" "clamp_score NegInf = Finite 0" "clamp_score NaN = Finite 1"
  by (simp_all add: clamp_score_def py_min_def py_max_def)

text \<open>
  C7. For every float score (finite, infinite or NaN), \<open>get_color_for_relevance\<close> first
  clamps the score to \<open>[0,1]\<close> and then returns red when the clamped score is at most
  0.33, yellow when it is above 0.33 and at most 0.66, green above 0.66, where 0.33 and
  0.66 are the float literals of the code; the upper bounds are inclusive. The result is
  always one of these three colours, the tier never decreases when the score increases,
  and a score outside \<open>[0,1]\<close> gets the colour of its clamped value: positive infinity
  and NaN are clamped to 1, negative infinity to 0, and no score is rejected.
\<close>

theorem get_color_for_relevance_tiers:
  "(\<exists>v. clamp_score s = Finite v \<and> 0 \<le> v \<and> v \<le> 1)
   \<and> get_color_for_relevance s =
       (if float_le (clamp_score s) (Finite double_0_33) then (0, 0, 255)
        else if float_le (clamp_score s) (Finite double_0_66) then (0, 255, 255)
        else (0, 255, 0))
   \<and> get_color_for_relevance (Finite x) =
       (if max 0 (min 1 x) \<le> double_0_33 then (0, 0, 255)
        else if max 0 (min 1 x) \<le> double_0_66 then (0, 255, 255)
        else (0, 255, 0))
   \<and> get_color_for_relevance PosInf = (0, 255, 0)
   \<and> get_color_for_relevance NegInf = (0, 0, 255)
   \<and> get_color_for_relevance NaN = (0, 255, 0)
   \<and> get_color_for_relevance s \<in> {(0, 0, 255), (0, 255, 255), (0, 255, 0)}
   \<and> get_color_for_relevance s = get_color_for_relevance (clamp_score s)
   \<and> (float_le s t \<longrightarrow>
        tier_of (get_color_for_relevance s) \<le> tier_of (get_color_for_relevance t))"
proof -
  note th = double_thresholds_order
  have range: "\<exists>v. clamp_score s = Finite v \<and> 0 \<le> v \<and> v \<le> 1"
    by (cases s) (auto simp: clamp_score_Finite clamp_score_other)
  have fin: "get_color_for_relevance (Finite x) =
       (if max 0 (min 1 x) \<le> double_0_33 then (0, 0, 255)
        else if max 0 (min 1 x) \<le> double_0_66 then (0, 255, 255)
        else (0, 255, 0))" for x
    by (simp add: get_color_for_relevance_def clamp_score_Finite Let_def)
  have other: "get_color_for_relevance PosInf = (0, 255, 0)"
    "get_color_for_relevance NegInf = (0, 0, 255)"
    "get_color_for_relevance NaN = (0, 255, 0)"
    using th by (simp_all add: get_color_for_relevance_def clamp_score_other Let_def)
  have three: "get_color_for_relevance s \<in> {(0, 0, 255), (0, 255, 255), (0, 255, 0)}"
    by (simp add: get_color_for_relevance_def Let_def)
  have idem: "clamp_score (clamp_score s) = clamp_score s"
    by (cases s) (auto simp: clamp_score_Finite clamp_score_other)
  have clamped: "get_color_for_relevance s = get_color_for_relevance (clamp_score s)"
    by (simp add: get_color_for_relevance_def idem)
  have mono: "float_le s t \<longrightarrow>
        tier_of (get_color_for_relevance s) \<le> tier_of (get_color_for_relevance t)"
    using th by (cases s; cases t) (auto simp: fin other tier_of_def)
  show ?thesis
    using range fin other three clamped mono
    by (simp add: get_color_for_relevance_def Let_def)
qed

theorem get_color_for_relevance_tiers_witness:
  "get_color_for_relevance (Finite (1 / 2)) = (0, 255, 255)
   \<and> get_color_for_relevance (Finite 7) = (0, 255, 0)
   \<and> get_color_for_relevance (Finite (- 3)) = (0, 0, 255)
   \<and> get_color_for_relevance (Finite double_0_33) = (0, 0, 255)
   \<and> get_color_for_relevance (Finite double_0_66) = (0, 255, 255)
   \<and> (float_le (Finite (1 / 2)) (Finite 7)
        \<and> tier_of (get_color_for_relevance (Finite (1 / 2)))
            \<le> tier_of (get_color_for_relevance (Finite 7)))"
  using get_color_for_relevance_tiers [of "Finite (1 / 2)" double_0_33 "Finite 7"]
    get_color_for_relevance_tiers [of "Finite (- 3)" double_0_66 "Finite 7"]
  by (simp add: get_color_for_relevance_def clamp_score_def py_min_def py_max_def
        double_0_33_def double_0_66_def)

subsection \<open>Rectangle overlap\<close>

text \<open>
  C9. \<open>check_overlap\<close> holds of two rectangles exactly when none of the four separation
  tests holds, that is when their projections overlap strictly on both axes; it is
  symmetric in its arguments; and two rectangles that share a boundary coordinate
  (one's right edge is the other's left edge, or one's bottom edge the other's top edge)
  do not overlap, as for \<open>(0,0,10,10)\<close> and \<open>(10,0,20,10)\<close>.
\<close>

theorem check_overlap_strict_symmetric:
  "check_overlap (a1, b1, a2, b2) (c1, d1, c2, d2)
     = (\<not> (a1 \<ge> c2 \<or> a2 \<le> c1 \<or> b1 \<ge> d2 \<or> b2 \<le> d1))
   \<and> check_overlap r1 r2 = check_overlap r2 r1
   \<and> (a2 = c1 \<or> c2 = a1 \<or> b2 = d1 \<or> d2 = b1
        \<longrightarrow> \<not> check_overlap (a1, b1, a2, b2) (c1, d1, c2, d2))
   \<and> \<not> check_overlap (0, 0, 10, 10) (10, 0, 20, 10)"
proof -
  have sym: "check_overlap r1 r2 = check_overlap r2 r1"
    by (cases r1; cases r2) auto
  show ?thesis using sym by auto
qed

theorem check_overlap_strict_symmetric_witness:
  "check_overlap (0, 0, 10, 10) (5, 5, 20, 20)
   \<and> check_overlap (5, 5, 20, 20) (0, 0, 10, 10)
   \<and> ((10 :: int) = 10 \<and> \<not> check_overlap (0, 0, 10, 10) (10, 0, 20, 10))"
  using check_overlap_strict_symmetric
    [of 0 0 10 10 10 0 20 10 "(0, 0, 10, 10)" "(5, 5, 20, 20)"]
  by simp

subsection \<open>Unfolding on concrete inputs\<close>

lemmas eval_defs =
  mono_font_def fmt_half_def two_detections_def text_block_max_width_def qr_box_padding_def
  box_thickness_def FILLED_def font_color_def text_bg_color_def strip_def isspace_def Let_def
  wrap_words_def lines_for_annotation_def actual_max_line_width_def
  get_text_block_dimensions_def draw_multiline_text_with_background_def
  candidate_positions_def candidate_rect_def find_best_pos_def fallback_pos_def
  final_text_pos_def place_block_def detections_map_def name_to_display_def
  bio_to_display_def profile_lines_def profile_dims_def annotate_profile_def
  annotate_image_def in_canvas_def acceptable_def nonempty_pieces_def
  get_color_for_relevance_def clamp_score_def py_min_def py_max_def double_0_33_def
  double_0_66_def

subsection \<open>The search over the candidates\<close>

lemma is_overlapping_iff: "is_overlapping c occ = (\<exists>r\<in>set occ. check_overlap c r)"
  by (induction occ) auto

lemma search_candidates_find:
  "search_candidates cs w h W H occ = List.find (acceptable w h W H occ) cs"
proof (induction cs)
  case Nil
  show ?case by simp
next
  case (Cons c cs)
  obtain x1 y1 x2 y2 where r: "candidate_rect c w h = (x1, y1, x2, y2)"
    by (cases "candidate_rect c w h") auto
  show ?case using Cons r
    by (auto simp: acceptable_def in_canvas_def is_overlapping_iff)
qed

lemma find_best_pos_acceptable:
  "find_best_pos b w h W H occ = Some c \<Longrightarrow> acceptable w h W H occ c"
  unfolding find_best_pos_def search_candidates_find
  by (auto simp: find_Some_iff)

text \<open>
  The claim C1 says that each candidate is the top-left corner of the padded bounding
  box. In the code a candidate is the origin of the text, and the background rectangle
  tested starts 5 pixels up and left of it: for the anchor \<open>(100,100,80,80)\<close> the first
  candidate \<open>(185,100)\<close> is returned, and its rectangle has the corner \<open>(180,95)\<close>, on
  the anchor's right edge.
\<close>

theorem candidate_not_background_corner:
  "find_best_pos (100, 100, 80, 80) 100 50 1024 768 [] = Some (185, 100)
   \<and> candidate_rect (185, 100) 100 50 = (180, 95, 280, 145)
   \<and> (180, 95) \<noteq> (185 :: int, 100 :: int)"
  by (simp add: eval_defs)

text \<open>
  C1, as the code has it. There are six candidates, in the order right, left, below,
  above, centred below, centred above; each is a text origin 5 pixels off the anchor,
  and its background rectangle is the text origin moved 5 pixels up and left, of the
  size of the block. The search returns the first candidate, in that order, whose
  rectangle is inside the canvas and overlaps no occupied region; it returns nothing
  exactly when all six are rejected.
\<close>

theorem find_best_pos_first_accepted:
  "candidate_positions (qr_x, qr_y, qr_w, qr_h) text_w text_h =
     [(qr_x + qr_w + 5, qr_y),
      (qr_x - text_w - 5, qr_y),
      (qr_x, qr_y + qr_h + 5),
      (qr_x, qr_y - text_h - 5),
      (qr_x + qr_w div 2 - text_w div 2, qr_y + qr_h + 5),
      (qr_x + qr_w div 2 - text_w div 2, qr_y - text_h - 5)]
   \<and> candidate_rect (cand_x, cand_y) text_w text_h =
       (cand_x - 5, cand_y - 5, cand_x + text_w - 5, cand_y + text_h - 5)
   \<and> find_best_pos b text_w text_h W H occ =
       List.find (acceptable text_w text_h W H occ) (candidate_positions b text_w text_h)
   \<and> (find_best_pos b text_w text_h W H occ = None \<longleftrightarrow>
        (\<forall>c\<in>set (candidate_positions b text_w text_h). \<not> acceptable text_w text_h W H occ c))"
proof -
  have find: "find_best_pos b text_w text_h W H occ =
      List.find (acceptable text_w text_h W H occ) (candidate_positions b text_w text_h)"
    by (simp add: find_best_pos_def search_candidates_find)
  have none: "find_best_pos b text_w text_h W H occ = None \<longleftrightarrow>
      (\<forall>c\<in>set (candidate_positions b text_w text_h). \<not> acceptable text_w text_h W H occ c)"
    unfolding find by (auto simp: find_None_iff)
  show ?thesis
    using find none
    by (simp add: candidate_positions_def candidate_rect_def qr_box_padding_def)
qed

theorem find_best_pos_first_accepted_witness:
  "find_best_pos (100, 100, 80, 80) 100 50 1024 768 [(180, 95, 280, 145)] = Some (100, 185)
   \<and> List.find (acceptable 100 50 1024 768 [(180, 95, 280, 145)])
        (candidate_positions (100, 100, 80, 80) 100 50) = Some (100, 185)
   \<and> \<not> acceptable 100 50 1024 768 [(180, 95, 280, 145)] (185, 100)
   \<and> \<not> acceptable 100 50 1024 768 [(180, 95, 280, 145)] (- 5, 100)
   \<and> find_best_pos (0, 0, 10, 10) 148 44 100 100 [] = None"
  using find_best_pos_first_accepted
      [of 100 100 80 80 100 50 0 0 "(100, 100, 80, 80)" 1024 768 "[(180, 95, 280, 145)]"]
    find_best_pos_first_accepted
      [of 0 0 10 10 148 44 0 0 "(0, 0, 10, 10)" 100 100 "[]"]
  by (simp add: eval_defs)

text \<open>
  C6. Whenever the search returns a position, the background rectangle at that position
  lies inside the canvas: its left and top edges are not negative, its right edge is at
  most the image width and its bottom edge at most the image height.
\<close>

theorem find_best_pos_in_canvas:
  "find_best_pos b text_w text_h img_w img_h occ = Some (x, y) \<Longrightarrow>
     in_canvas img_w img_h (candidate_rect (x, y) text_w text_h)
     \<and> 0 \<le> x - 5 \<and> 0 \<le> y - 5 \<and> x + text_w - 5 \<le> img_w \<and> y + text_h - 5 \<le> img_h"
  by (drule find_best_pos_acceptable)
    (simp add: acceptable_def in_canvas_def candidate_rect_def)

theorem find_best_pos_in_canvas_witness:
  "find_best_pos (100, 100, 80, 80) 100 50 1024 768 [(180, 95, 280, 145)] = Some (100, 185)
   \<and> in_canvas 1024 768 (candidate_rect (100, 185) 100 50)"
proof -
  have h: "find_best_pos (100, 100, 80, 80) 100 50 1024 768 [(180, 95, 280, 145)]
             = Some (100, 185)"
    by (simp add: eval_defs)
  show ?thesis using h find_best_pos_in_canvas [OF h] by simp
qed

subsection \<open>Splitting, stripping and wrapping\<close>


lemma dropWhile_hd: "xs \<noteq> [] \<Longrightarrow> \<not> P (hd xs) \<Longrightarrow> dropWhile P xs = xs"
  by (cases xs) auto

lemma strip_keeps_prefix:
  assumes "a \<noteq> []" "\<not> isspace (hd a)" "\<not> isspace (last a)"
  shows "prefix a (strip (a @ b))"
proof -
  have 1: "dropWhile isspace (a @ b) = a @ b"
    using assms by (intro dropWhile_hd) auto
  have 2: "dropWhile isspace (rev a) = rev a"
    using assms by (intro dropWhile_hd) (auto simp: hd_rev)
  show ?thesis
    unfolding strip_def 1
    by (auto simp: dropWhile_append 2)
qed











lemma wrap_bio_acc:
  "wrap_bio g ws cur (pre @ out) =
     (pre @ fst (wrap_bio g ws cur out), snd (wrap_bio g ws cur out))"
  by (induction ws arbitrary: cur out) (auto simp: Let_def)

lemma wrap_words_acc: "wrap_words g ws pre = pre @ wrap_words g ws []"
  using wrap_bio_acc[of g ws "''Bio:''" pre "[]"]
  by (simp add: wrap_words_def case_prod_beta)

lemma wrap_bio_widths:
  assumes "set ws \<subseteq> S"
    and "\<forall>l\<in>set out. fst (g l) \<le> text_block_max_width \<or> l \<in> S \<or> l = ''Bio:''
           \<or> (\<exists>w\<in>S. l = strip (''Bio: '' @ w))"
    and "fst (g cur) \<le> text_block_max_width \<or> cur \<in> S \<or> cur = ''Bio:''
           \<or> (\<exists>w\<in>S. cur = strip (''Bio: '' @ w))"
    and "wrap_bio g ws cur out = (ls, c)"
  shows "\<forall>l\<in>set (c # ls). fst (g l) \<le> text_block_max_width \<or> l \<in> S \<or> l = ''Bio:''
           \<or> (\<exists>w\<in>S. l = strip (''Bio: '' @ w))"
  using assms
proof (induction ws arbitrary: cur out)
  case Nil
  then show ?case by simp
next
  case (Cons w ws)
  let ?t = "strip (cur @ CHR '' '' # w)"
  have wS: "w \<in> S" "set ws \<subseteq> S" using Cons.prems(1) by auto
  show ?case
  proof (cases "fst (g ?t) > text_block_max_width \<and> cur \<noteq> ''Bio:''")
    case True
    then have run: "wrap_bio g ws w (out @ [cur]) = (ls, c)"
      using Cons.prems(4) by (simp add: Let_def)
    show ?thesis
      by (rule Cons.IH[OF wS(2) _ _ run]) (use Cons.prems(2,3) wS(1) in auto)
  next
    case False
    then have run: "wrap_bio g ws ?t out = (ls, c)"
      using Cons.prems(4) by (auto simp: Let_def)
    have "fst (g ?t) \<le> text_block_max_width \<or> (\<exists>w\<in>S. ?t = strip (''Bio: '' @ w))"
      using False wS(1) by auto
    then show ?thesis
      by (intro Cons.IH[OF wS(2) Cons.prems(2) _ run]) blast
  qed
qed

lemma wrap_words_widths:
  assumes "l \<in> set (wrap_words g ws [])"
  shows "fst (g l) \<le> text_block_max_width \<or> l \<in> set ws \<or> l = ''Bio:''
           \<or> (\<exists>w\<in>set ws. l = strip (''Bio: '' @ w))"
proof -
  obtain ls c where run: "wrap_bio g ws ''Bio:'' [] = (ls, c)"
    by (cases "wrap_bio g ws ''Bio:'' []") auto
  have "l \<in> set (c # ls)"
    using assms run by (auto simp: wrap_words_def split: if_splits)
  then show ?thesis
    using wrap_bio_widths[OF subset_refl _ _ run] by auto
qed

lemma Bio_prefix_strip: "prefix ''Bio:'' cur \<Longrightarrow> prefix ''Bio:'' (strip (cur @ b))"
proof -
  assume "prefix ''Bio:'' cur"
  then obtain r where "cur = ''Bio:'' @ r" by (auto simp: prefix_def)
  then show ?thesis
    using strip_keeps_prefix[of "''Bio:''" "r @ b"] by (simp add: isspace_def)
qed

lemma wrap_bio_first_line:
  assumes "if out = [] then prefix ''Bio:'' cur else prefix ''Bio:'' (hd out)"
    and "wrap_bio g ws cur out = (ls, c)"
  shows "if ls = [] then prefix ''Bio:'' c else prefix ''Bio:'' (hd ls)"
  using assms
proof (induction ws arbitrary: cur out)
  case Nil
  then show ?case by (auto split: if_splits)
next
  case (Cons w ws)
  let ?t = "strip (cur @ CHR '' '' # w)"
  show ?case
  proof (cases "fst (g ?t) > text_block_max_width \<and> cur \<noteq> ''Bio:''")
    case True
    then have run: "wrap_bio g ws w (out @ [cur]) = (ls, c)"
      using Cons.prems(2) by (simp add: Let_def)
    show ?thesis
      by (rule Cons.IH[OF _ run]) (use Cons.prems(1) in \<open>auto split: if_splits\<close>)
  next
    case False
    then have run: "wrap_bio g ws ?t out = (ls, c)"
      using Cons.prems(2) by (auto simp: Let_def)
    show ?thesis
      by (rule Cons.IH[OF _ run])
        (use Cons.prems(1) Bio_prefix_strip[of cur "CHR '' '' # w"] in \<open>auto split: if_splits\<close>)
  qed
qed

lemma wrap_words_first_line:
  "wrap_words g ws [] \<noteq> [] \<and> prefix ''Bio:'' (hd (wrap_words g ws []))"
proof -
  obtain ls c where run: "wrap_bio g ws ''Bio:'' [] = (ls, c)"
    by (cases "wrap_bio g ws ''Bio:'' []") auto
  have "if ls = [] then prefix ''Bio:'' c else prefix ''Bio:'' (hd ls)"
    by (rule wrap_bio_first_line[OF _ run]) simp
  then show ?thesis
    using run by (auto simp: wrap_words_def split: if_splits)
qed

lemma lines_for_annotation_split:
  "lines_for_annotation g fmt nm score b =
     [''Name: '' @ nm, ''Score: '' @ fmt score] @ wrap_words g (split_space b) []"
  unfolding lines_for_annotation_def by (rule wrap_words_acc)

lemma fold_max_ge: "a \<le> fold (\<lambda>line a. if f line > a then f line else a) ls (a::int)"
proof (induction ls arbitrary: a)
  case Nil
  show ?case by simp
next
  case (Cons l ls)
  show ?case using Cons[of "if f l > a then f l else a"] by (auto split: if_splits)
qed

lemma actual_max_line_width_nonneg: "0 \<le> actual_max_line_width g ls"
  unfolding actual_max_line_width_def by (rule fold_max_ge)

lemma dims_positive:
  assumes "ls \<noteq> []" "get_text_block_dimensions g ls text_block_max_width = (tw, th)"
  shows "10 \<le> tw" "0 \<le> snd (g ''Tg'') \<Longrightarrow> 0 < th"
proof -
  show "10 \<le> tw"
    using assms actual_max_line_width_nonneg[of g ls]
    by (auto simp: get_text_block_dimensions_def Let_def text_block_max_width_def)
  assume "0 \<le> snd (g ''Tg'')"
  then have "0 \<le> int (length ls) * (snd (g ''Tg'') + 5)" by simp
  then show "0 < th"
    using assms by (auto simp: get_text_block_dimensions_def Let_def)
qed

lemma draw_calls:
  assumes "ls \<noteq> []" "get_text_block_dimensions g ls mw = (tw, th)"
    and "candidate_rect (x, y) tw th = (x1, y1, x2, y2)"
  shows "fst (draw_multiline_text_with_background g img ls (x, y) fc bc mw) =
           img @ CvRectangle (x1, y1) (x2, y2) bc FILLED
             # put_text_lines ls x (y + snd (g ''Tg'')) (snd (g ''Tg'') + 5) fc"
  using assms
  by (auto simp: draw_multiline_text_with_background_def get_text_block_dimensions_def
        candidate_rect_def Let_def)

subsection \<open>Placing and registering one block\<close>

lemma draw_rect_candidate:
  assumes "ls \<noteq> []" "get_text_block_dimensions g ls mw = (tw, th)"
  shows "snd (draw_multiline_text_with_background g img ls pos fc bc mw) = candidate_rect pos tw th"
  using assms
  by (cases pos) (auto simp: draw_multiline_text_with_background_def get_text_block_dimensions_def
        candidate_rect_def Let_def)

lemma fallback_rect_bounds:
  assumes "candidate_rect (final_text_pos (fallback_pos b tw th W H)) tw th = (x1, y1, x2, y2)"
  shows "0 \<le> x1" "0 \<le> y1" "tw \<le> W \<Longrightarrow> x2 \<le> W" "th \<le> H \<Longrightarrow> y2 \<le> H"
  using assms
  by (cases b; auto simp: candidate_rect_def final_text_pos_def fallback_pos_def Let_def qr_box_padding_def split: if_splits)+

lemma final_text_pos_fallback: "final_text_pos (fallback_pos b tw th W H) = fallback_pos b tw th W H"
  by (cases b) (auto simp: final_text_pos_def fallback_pos_def Let_def)

lemma final_text_pos_accept: "acceptable w h W H occ c \<Longrightarrow> final_text_pos c = c"
  by (cases c) (auto simp: final_text_pos_def acceptable_def in_canvas_def candidate_rect_def Let_def)

lemma dims_nonzero_lines: "get_text_block_dimensions g ls mw = (tw, th) \<Longrightarrow> tw \<noteq> 0 \<Longrightarrow> ls \<noteq> []"
  by (auto simp: get_text_block_dimensions_def)

lemma placed_rect_in_canvas:
  assumes "tw \<le> W" "th \<le> H"
  shows "in_canvas W H (candidate_rect (place_block b tw th W H occ) tw th)"
proof (cases "find_best_pos b tw th W H occ")
  case None
  obtain x1 y1 x2 y2 where r:
    "candidate_rect (final_text_pos (fallback_pos b tw th W H)) tw th = (x1, y1, x2, y2)"
    by (cases "candidate_rect (final_text_pos (fallback_pos b tw th W H)) tw th") auto
  from fallback_rect_bounds[OF r] assms None r show ?thesis
    by (simp add: in_canvas_def place_block_def)
next
  case (Some c)
  then have a: "acceptable tw th W H occ c" by (rule find_best_pos_acceptable)
  then show ?thesis using Some final_text_pos_accept[OF a]
    by (simp add: acceptable_def place_block_def)
qed

lemma annotate_profile_skipped:
  "dmap pid = None \<Longrightarrow> annotate_profile g fmt W H dmap pd st (pid, score) = st"
  by (simp add: annotate_profile_def)

lemma annotate_profile_placed:
  assumes "dmap pid = Some b"
    and "get_text_block_dimensions g (profile_lines g fmt pd (pid, score))
           text_block_max_width = (tw, th)"
    and "tw \<noteq> 0" "th \<noteq> 0"
  shows "occupied_regions (annotate_profile g fmt W H dmap pd st (pid, score)) =
           occupied_regions st @
             [candidate_rect (place_block b tw th W H (occupied_regions st)) tw th]"
proof -
  have ne: "profile_lines g fmt pd (pid, score) \<noteq> []"
    using dims_nonzero_lines[OF assms(2,3)] .
  have r: "\<And>img pos fc bc im r.
      draw_multiline_text_with_background g img (profile_lines g fmt pd (pid, score))
        pos fc bc text_block_max_width = (im, r) \<Longrightarrow> r = candidate_rect pos tw th"
    using draw_rect_candidate[OF ne assms(2)] by (metis snd_conv)
  show ?thesis
    using assms
    by (cases b) (auto simp: annotate_profile_def Let_def split: prod.splits dest: r)
qed

lemma annotate_profile_zero_dims:
  assumes "dmap pid = Some b"
    and "get_text_block_dimensions g (profile_lines g fmt pd (pid, score))
           text_block_max_width = (tw, th)"
    and "tw = 0 \<or> th = 0"
  shows "occupied_regions (annotate_profile g fmt W H dmap pd st (pid, score)) =
           occupied_regions st"
  using assms by (cases b) (auto simp: annotate_profile_def Let_def)

lemma annotate_profile_in_canvas:
  assumes "\<forall>r\<in>set (occupied_regions st). in_canvas W H r"
    and "fst (profile_dims g fmt pd p) \<le> W" "snd (profile_dims g fmt pd p) \<le> H"
  shows "\<forall>r\<in>set (occupied_regions (annotate_profile g fmt W H dmap pd st p)). in_canvas W H r"
proof (cases p)
  case (Pair pid score)
  obtain tw th where d: "get_text_block_dimensions g (profile_lines g fmt pd (pid, score))
        text_block_max_width = (tw, th)"
    by (cases "get_text_block_dimensions g (profile_lines g fmt pd (pid, score))
          text_block_max_width") auto
  then have le: "tw \<le> W" "th \<le> H"
    using assms(2,3) Pair by (simp_all add: profile_dims_def)
  show ?thesis
  proof (cases "dmap pid")
    case None
    then show ?thesis using Pair assms(1) by (simp add: annotate_profile_skipped)
  next
    case (Some b)
    show ?thesis
    proof (cases "tw = 0 \<or> th = 0")
      case True
      then show ?thesis
        using Pair assms(1) annotate_profile_zero_dims[where dmap=dmap and pid=pid, OF Some d] by simp
    next
      case False
      then show ?thesis
        using Pair assms(1) annotate_profile_placed[where dmap=dmap and pid=pid, OF Some d] placed_rect_in_canvas[OF le]
        by simp
    qed
  qed
qed

lemma annotate_loop_in_canvas:
  assumes "\<forall>r\<in>set (occupied_regions st). in_canvas W H r"
    and "\<forall>p\<in>set ps. fst (profile_dims g fmt pd p) \<le> W \<and> snd (profile_dims g fmt pd p) \<le> H"
  shows "\<forall>r\<in>set (occupied_regions (annotate_loop g fmt W H dmap pd st ps)). in_canvas W H r"
  using assms
proof (induction ps arbitrary: st)
  case Nil
  then show ?case by simp
next
  case (Cons p ps)
  have "\<forall>r\<in>set (occupied_regions (annotate_profile g fmt W H dmap pd st p)). in_canvas W H r"
    using Cons.prems by (intro annotate_profile_in_canvas) auto
  then show ?case using Cons.IH Cons.prems(2) by simp
qed

subsection \<open>The occupied regions of a pass\<close>

text \<open>
  The claim C2 speaks of any canvas size. On a canvas of 100 by 100 pixels, the anchor
  \<open>(0,0,10,10)\<close> and the default bio give a block 148 pixels wide: no candidate fits,
  the fallback moves the block to the left edge, and the rectangle registered ends at
  \<open>x = 148\<close>, outside the canvas.
\<close>

theorem registered_region_outside_small_canvas:
  "occupied_regions
     (annotate_image mono_font fmt_half 100 100 [(''a'', Finite (1 / 2))]
        [\<lparr>det_id = Some ''a'', det_bbox = Some (0, 0, 10, 10)\<rparr>] Map.empty)
     = [(0, 0, 148, 44)]
   \<and> \<not> in_canvas 100 100 (0, 0, 148, 44)"
  by (simp add: eval_defs)

text \<open>
  C2, as the code has it. When the text block of every ranked profile is no wider and no
  higher than the canvas, every rectangle in the occupied regions at the end of the pass
  lies inside the canvas, those of the fallback included. Nothing is asked of the anchor
  rectangles.
\<close>

theorem registered_regions_in_canvas:
  assumes "\<forall>p\<in>set ranked_profiles.
             fst (profile_dims getTextSize fmt profiles_data p) \<le> img_w
             \<and> snd (profile_dims getTextSize fmt profiles_data p) \<le> img_h"
  shows "\<forall>r\<in>set (occupied_regions
            (annotate_image getTextSize fmt img_w img_h ranked_profiles all_detections
               profiles_data)). in_canvas img_w img_h r"
  unfolding annotate_image_def
  by (rule annotate_loop_in_canvas) (use assms in simp_all)

theorem registered_regions_in_canvas_witness:
  "profile_dims mono_font fmt_half Map.empty (''a'', Finite (95 / 100)) = (148, 44)
   \<and> profile_dims mono_font fmt_half Map.empty (''b'', Finite (1 / 2)) = (148, 44)
   \<and> occupied_regions
        (annotate_image mono_font fmt_half 1024 768 [(''a'', Finite (95 / 100)), (''b'', Finite (1 / 2))]
           two_detections Map.empty)
       = [(110, 45, 258, 89), (65, 130, 213, 174)]
   \<and> in_canvas 1024 768 (110, 45, 258, 89)
   \<and> in_canvas 1024 768 (65, 130, 213, 174)"
proof -
  have h: "\<forall>p\<in>set [(''a'', Finite (95 / 100)), (''b'', Finite (1 / 2))].
       fst (profile_dims mono_font fmt_half Map.empty p) \<le> 1024
       \<and> snd (profile_dims mono_font fmt_half Map.empty p) \<le> 768"
    by (simp add: eval_defs)
  show ?thesis
    using registered_regions_in_canvas [OF h, where all_detections = two_detections]
    by (simp add: eval_defs)
qed

text \<open>
  The claim C5 says that the fallback rectangle never exceeds the canvas. A block of
  148 by 44 pixels on a canvas of 100 by 30 is put at the top-left corner, and its
  right and bottom edges are outside.
\<close>

theorem fallback_exceeds_small_canvas:
  "find_best_pos (0, 0, 10, 10) 148 44 100 30 [] = None
   \<and> candidate_rect (place_block (0, 0, 10, 10) 148 44 100 30 []) 148 44 = (0, 0, 148, 44)
   \<and> \<not> (148 \<le> (100 :: int)) \<and> \<not> (44 \<le> (30 :: int))"
  by (simp add: eval_defs)

text \<open>
  C5, as the code has it. When all six candidates are rejected for a profile that is
  drawn, the rectangle of the fallback position is appended to the occupied regions.
  Its left and top edges are never negative; its right edge does not exceed the canvas
  when the block is no wider than the canvas, and its bottom edge does not when the
  block is no higher. When the block fits to the right of the anchor without clamping,
  the position is the right of the anchor, 5 pixels off, and 5 pixels below its top.
\<close>

theorem fallback_registered_and_clamped:
  assumes "dmap profile_id = Some (qr_x, qr_y, qr_w, qr_h)"
    and "profile_dims getTextSize fmt profiles_data (profile_id, score) = (text_w, text_h)"
    and "0 \<le> snd (getTextSize ''Tg'')"
    and "find_best_pos (qr_x, qr_y, qr_w, qr_h) text_w text_h img_w img_h (occupied_regions st)
           = None"
  shows "occupied_regions
           (annotate_profile getTextSize fmt img_w img_h dmap profiles_data st (profile_id, score))
         = occupied_regions st @
             [candidate_rect (fallback_pos (qr_x, qr_y, qr_w, qr_h) text_w text_h img_w img_h)
                text_w text_h]
       \<and> (case candidate_rect (fallback_pos (qr_x, qr_y, qr_w, qr_h) text_w text_h img_w img_h)
                 text_w text_h of
            (x1, y1, x2, y2) \<Rightarrow>
              0 \<le> x1 \<and> 0 \<le> y1 \<and> (text_w \<le> img_w \<longrightarrow> x2 \<le> img_w)
              \<and> (text_h \<le> img_h \<longrightarrow> y2 \<le> img_h))
       \<and> (0 \<le> qr_x + qr_w \<and> 0 \<le> qr_y \<and> qr_x + qr_w + text_w \<le> img_w
            \<and> qr_y + text_h \<le> img_h \<longrightarrow>
            fallback_pos (qr_x, qr_y, qr_w, qr_h) text_w text_h img_w img_h
              = (qr_x + qr_w + 5, qr_y + 5))"
proof -
  let ?b = "(qr_x, qr_y, qr_w, qr_h)"
  have d: "get_text_block_dimensions getTextSize
             (profile_lines getTextSize fmt profiles_data (profile_id, score))
             text_block_max_width = (text_w, text_h)"
    using assms(2) by (simp add: profile_dims_def)
  have ne: "profile_lines getTextSize fmt profiles_data (profile_id, score) \<noteq> []"
    by (simp add: profile_lines_def lines_for_annotation_split)
  have nz: "text_w \<noteq> 0" "text_h \<noteq> 0"
    using dims_positive[OF ne d] assms(3) by auto
  have pos: "place_block ?b text_w text_h img_w img_h (occupied_regions st)
               = fallback_pos ?b text_w text_h img_w img_h"
    using assms(4) by (simp add: place_block_def final_text_pos_fallback)
  have reg: "occupied_regions
           (annotate_profile getTextSize fmt img_w img_h dmap profiles_data st (profile_id, score))
         = occupied_regions st @
             [candidate_rect (fallback_pos ?b text_w text_h img_w img_h) text_w text_h]"
    using annotate_profile_placed[where dmap=dmap and pid=profile_id, OF assms(1) d nz] pos
    by simp
  obtain x1 y1 x2 y2 where r:
    "candidate_rect (final_text_pos (fallback_pos ?b text_w text_h img_w img_h)) text_w text_h
       = (x1, y1, x2, y2)"
    by (cases "candidate_rect (final_text_pos (fallback_pos ?b text_w text_h img_w img_h))
          text_w text_h") auto
  have bounds: "case candidate_rect (fallback_pos ?b text_w text_h img_w img_h) text_w text_h of
            (x1, y1, x2, y2) \<Rightarrow>
              0 \<le> x1 \<and> 0 \<le> y1 \<and> (text_w \<le> img_w \<longrightarrow> x2 \<le> img_w)
              \<and> (text_h \<le> img_h \<longrightarrow> y2 \<le> img_h)"
    using fallback_rect_bounds[OF r] r by (simp add: final_text_pos_fallback)
  have unclamped: "0 \<le> qr_x + qr_w \<and> 0 \<le> qr_y \<and> qr_x + qr_w + text_w \<le> img_w
            \<and> qr_y + text_h \<le> img_h \<longrightarrow>
            fallback_pos ?b text_w text_h img_w img_h = (qr_x + qr_w + 5, qr_y + 5)"
    by (simp add: fallback_pos_def Let_def qr_box_padding_def)
  show ?thesis using reg bounds unclamped by blast
qed

theorem fallback_registered_and_clamped_witness:
  "occupied_regions
     (annotate_profile mono_font fmt_half 160 50 [''a'' \<mapsto> (70, 20, 10, 10)] Map.empty
        \<lparr>image_calls = [], occupied_regions = []\<rparr> (''a'', Finite (1 / 2)))
     = [(12, 6, 160, 50)]
   \<and> find_best_pos (70, 20, 10, 10) 148 44 160 50 [] = None
   \<and> fallback_pos (70, 20, 10, 10) 148 44 160 50 = (17, 11)
   \<and> fallback_pos (70, 20, 10, 10) 148 44 1024 768 = (85, 25)"
proof -
  have h1: "[''a'' \<mapsto> (70 :: int, 20 :: int, 10 :: int, 10 :: int)] ''a'' = Some (70, 20, 10, 10)"
    by simp
  have h2: "profile_dims mono_font fmt_half Map.empty (''a'', Finite (1 / 2)) = (148, 44)"
    by (simp add: eval_defs)
  have h3: "0 \<le> snd (mono_font ''Tg'')"
    by (simp add: mono_font_def)
  have h4: "find_best_pos (70, 20, 10, 10) 148 44 160 50
              (occupied_regions \<lparr>image_calls = [], occupied_regions = []\<rparr>) = None"
    by (simp add: eval_defs)
  show ?thesis
    using h4 fallback_registered_and_clamped [where dmap = "[''a'' \<mapsto> (70, 20, 10, 10)]", OF h1 h2 h3 h4]
    by (simp add: candidate_rect_def fallback_pos_def qr_box_padding_def)
qed

subsection \<open>Wrapping the bio\<close>

text \<open>
  The claim C3 makes the flush depend on the current line being non-empty, and concludes
  that only a line made of one over-wide token can exceed the maximal width. In the code
  the test is that the current line differs from the bare prefix \<open>Bio:\<close>. With a
  font of 6 pixels a character and a first word of 40 characters, the candidate line
  measures 270 pixels, more than 250, and the current line \<open>Bio:\<close> is not empty; yet
  nothing is flushed, and the line returned is the prefix with the word, 270 pixels
  wide, although the word alone measures 240.
\<close>

theorem first_bio_line_over_width:
  "wrap_words mono_font [''abcdefghijklmnopqrstuvwxyzabcdefghijklmn''] []
     = [''Bio: abcdefghijklmnopqrstuvwxyzabcdefghijklmn'']
   \<and> fst (mono_font ''Bio: abcdefghijklmnopqrstuvwxyzabcdefghijklmn'') = 270
   \<and> fst (mono_font ''abcdefghijklmnopqrstuvwxyzabcdefghijklmn'') = 240
   \<and> text_block_max_width = 250"
  by (simp add: eval_defs)

text \<open>
  C3, as the code has it. For every list of words and every measure, the loop appends
  the next word to the current line unless the measured candidate line exceeds the
  maximal width and the current line is not the bare prefix \<open>Bio:\<close>; in that case the
  current line is flushed to the output and a new line starts with that word.
  Consequently every returned line measures at most the maximal width, or is one of the
  words alone, or is the prefix \<open>Bio:\<close> alone or followed by one word.
\<close>

theorem wrap_bio_line_widths:
  "wrap_bio getTextSize (word # ws) current_bio_line lines =
     (if fst (getTextSize (strip (current_bio_line @ '' '' @ word))) > text_block_max_width
         \<and> current_bio_line \<noteq> ''Bio:''
      then wrap_bio getTextSize ws word (lines @ [current_bio_line])
      else wrap_bio getTextSize ws (strip (current_bio_line @ '' '' @ word)) lines)
   \<and> (l \<in> set (wrap_words getTextSize bio_words []) \<longrightarrow>
        fst (getTextSize l) \<le> text_block_max_width
        \<or> l \<in> set bio_words
        \<or> l = ''Bio:''
        \<or> (\<exists>w\<in>set bio_words. l = strip (''Bio: '' @ w)))"
  using wrap_words_widths[of l getTextSize bio_words]
  by (simp add: Let_def)

theorem wrap_bio_line_widths_witness:
  "wrap_words mono_font
       [''abcdefghijklmnopqrstuvwxyz'', ''abcdefghijklmnopqrstuvwxyz'', ''c''] []
     = [''Bio: abcdefghijklmnopqrstuvwxyz'', ''abcdefghijklmnopqrstuvwxyz c'']
   \<and> fst (mono_font ''abcdefghijklmnopqrstuvwxyz c'') \<le> text_block_max_width"
  using wrap_bio_line_widths [of mono_font "''abcdefghijklmnopqrstuvwxyz''" "[]" "''Bio:''" "[]"
      "''abcdefghijklmnopqrstuvwxyz c''"
      "[''abcdefghijklmnopqrstuvwxyz'', ''abcdefghijklmnopqrstuvwxyz'', ''c'']"]
  by (simp add: eval_defs)




subsection \<open>The annotation lines and the size of the block\<close>

text \<open>
  The claim C10 names a final line starting with \<open>Bio:\<close>. When the bio is wrapped to
  more than one line, the line that starts with \<open>Bio:\<close> is the third one, and the last
  line is a continuation without the prefix.
\<close>

theorem last_line_without_bio_prefix:
  "lines_for_annotation mono_font fmt_half ''Al'' (Finite (1 / 2))
       ''abcdefghijklmnopqrstuvwxyz abcdefghijklmnopqrstuvwxyz''
     = [''Name: Al'', ''Score: 0.50'', ''Bio: abcdefghijklmnopqrstuvwxyz'',
        ''abcdefghijklmnopqrstuvwxyz'']
   \<and> \<not> prefix ''Bio:'' (last [''Name: Al'', ''Score: 0.50'', ''Bio: abcdefghijklmnopqrstuvwxyz'',
        ''abcdefghijklmnopqrstuvwxyz''])"
  by (simp add: eval_defs)

text \<open>
  C10, as the code has it. For every name, score and bio, the annotation lines are at
  least three: the first is \<open>Name:\<close> with the name, the second is \<open>Score:\<close> with the
  formatted score, and the third starts with \<open>Bio:\<close> (further lines of the wrapped bio
  may follow). So the list is never empty and the width of the block is strictly
  positive; its height is strictly positive when the height given by \<open>getTextSize\<close> is
  not negative. The branch that skips a block of width or height zero is then never
  taken.
\<close>

theorem annotation_lines_at_least_three:
  "3 \<le> length (lines_for_annotation getTextSize fmt nm score b)
   \<and> lines_for_annotation getTextSize fmt nm score b ! 0 = ''Name: '' @ nm
   \<and> lines_for_annotation getTextSize fmt nm score b ! 1 = ''Score: '' @ fmt score
   \<and> prefix ''Bio:'' (lines_for_annotation getTextSize fmt nm score b ! 2)
   \<and> lines_for_annotation getTextSize fmt nm score b \<noteq> []
   \<and> 0 < fst (get_text_block_dimensions getTextSize
               (lines_for_annotation getTextSize fmt nm score b) text_block_max_width)
   \<and> (0 \<le> snd (getTextSize ''Tg'') \<longrightarrow>
        0 < snd (get_text_block_dimensions getTextSize
                   (lines_for_annotation getTextSize fmt nm score b) text_block_max_width))"
proof -
  let ?ls = "lines_for_annotation getTextSize fmt nm score b"
  let ?bl = "wrap_words getTextSize (split_space b) []"
  have split: "?ls = [''Name: '' @ nm, ''Score: '' @ fmt score] @ ?bl"
    by (rule lines_for_annotation_split)
  have bl: "?bl \<noteq> []" "prefix ''Bio:'' (hd ?bl)"
    using wrap_words_first_line[of getTextSize "split_space b"] by auto
  have len: "3 \<le> length ?ls"
    using bl(1) unfolding split by (cases ?bl) auto
  have third: "?ls ! 2 = hd ?bl"
    using bl(1) unfolding split by (cases ?bl) auto
  have ne: "?ls \<noteq> []" unfolding split by simp
  obtain tw th where d: "get_text_block_dimensions getTextSize ?ls text_block_max_width = (tw, th)"
    by (cases "get_text_block_dimensions getTextSize ?ls text_block_max_width") auto
  have "0 < tw" "0 \<le> snd (getTextSize ''Tg'') \<longrightarrow> 0 < th"
    using dims_positive[OF ne d] by auto
  then show ?thesis
    using len third bl(2) ne d by (simp add: split)
qed

theorem annotation_lines_at_least_three_witness:
  "0 \<le> snd (mono_font ''Tg'')
   \<and> get_text_block_dimensions mono_font
        (lines_for_annotation mono_font fmt_half ''Al'' (Finite (1 / 2)) ''a b'') text_block_max_width
       = (76, 44)
   \<and> prefix ''Bio:'' (lines_for_annotation mono_font fmt_half ''Al'' (Finite (1 / 2)) ''a b'' ! 2)"
  using annotation_lines_at_least_three [of mono_font fmt_half "''Al''" "Finite (1 / 2)" "''a b''"]
  by (simp add: eval_defs)

subsection \<open>A profile with an empty bio\<close>

text \<open>
  The claim C4 says that an empty bio wraps to zero lines and that its block is skipped.
  In the code the empty string splits into one empty word, the line \<open>Bio:\<close> is kept,
  and the block of three lines is drawn and registered.
\<close>

theorem empty_bio_wraps_to_one_line:
  "lines_for_annotation mono_font fmt_half ''Al'' (Finite (1 / 2)) [] = [''Name: Al'', ''Score: 0.50'', ''Bio:'']
   \<and> annotate_image mono_font fmt_half 1024 768 [(''a'', Finite (1 / 2))]
        [\<lparr>det_id = Some ''a'', det_bbox = Some (100, 100, 80, 80)\<rparr>]
        [''a'' \<mapsto> \<lparr>name = Some ''Al'', bio = Some []\<rparr>]
      = \<lparr>image_calls =
           [CvRectangle (100, 100) (180, 180) (0, 255, 255) 2,
            CvRectangle (180, 95) (256, 139) (250, 250, 240) (- 1),
            CvPutText ''Name: Al'' (185, 108) (0, 0, 0),
            CvPutText ''Score: 0.50'' (185, 121) (0, 0, 0),
            CvPutText ''Bio:'' (185, 134) (0, 0, 0)],
         occupied_regions = [(180, 95, 256, 139)]\<rparr>"
  by (simp add: eval_defs)

lemma empty_bio_lines:
  "lines_for_annotation g fmt nm score [] = [''Name: '' @ nm, ''Score: '' @ fmt score, ''Bio:'']"
  by (simp add: lines_for_annotation_def wrap_words_def strip_def isspace_def Let_def)

lemma annotate_profile_calls:
  assumes "dmap pid = Some (qx, qy, qw, qh)"
    and "get_text_block_dimensions g (profile_lines g fmt pd (pid, score))
           text_block_max_width = (tw, th)"
    and "tw \<noteq> 0" "th \<noteq> 0"
    and "place_block (qx, qy, qw, qh) tw th W H (occupied_regions st) = (x, y)"
    and "candidate_rect (x, y) tw th = (x1, y1, x2, y2)"
  shows "image_calls (annotate_profile g fmt W H dmap pd st (pid, score)) =
           image_calls st @
             CvRectangle (qx, qy) (qx + qw, qy + qh) (get_color_for_relevance score) box_thickness
             # CvRectangle (x1, y1) (x2, y2) text_bg_color FILLED
             # put_text_lines (profile_lines g fmt pd (pid, score)) x (y + snd (g ''Tg''))
                 (snd (g ''Tg'') + 5) font_color"
proof -
  have ne: "profile_lines g fmt pd (pid, score) \<noteq> []"
    using dims_nonzero_lines[OF assms(2,3)] .
  have r: "\<And>img fc bc im r.
      draw_multiline_text_with_background g img (profile_lines g fmt pd (pid, score))
        (x, y) fc bc text_block_max_width = (im, r) \<Longrightarrow>
      im = img @ CvRectangle (x1, y1) (x2, y2) bc FILLED
             # put_text_lines (profile_lines g fmt pd (pid, score)) x (y + snd (g ''Tg''))
                 (snd (g ''Tg'') + 5) fc"
    using draw_calls[OF ne assms(2) assms(6)] by (metis fst_conv)
  show ?thesis
    using assms(1,2,3,4,5)
    by (auto simp: annotate_profile_def Let_def split: prod.splits dest: r)
qed

text \<open>
  C4, as the code has it. For every processed profile whose bio is the empty string, the
  annotation lines are the name line, the score line and the line \<open>Bio:\<close>. The anchor
  box is drawn, then the background and the three lines of the block at the position
  chosen for it, and the rectangle of the block is appended to the occupied regions.
  The pass goes on with the next profile.
\<close>

theorem empty_bio_block_drawn:
  assumes "dmap profile_id = Some (qr_x, qr_y, qr_w, qr_h)"
    and "profiles_data profile_id = Some profile_info"
    and "bio profile_info = Some []"
    and "profile_dims getTextSize fmt profiles_data (profile_id, score) = (text_w, text_h)"
    and "place_block (qr_x, qr_y, qr_w, qr_h) text_w text_h img_w img_h (occupied_regions st)
           = (x, y)"
  shows "profile_lines getTextSize fmt profiles_data (profile_id, score) =
           [''Name: '' @ name_to_display profiles_data profile_id,
            ''Score: '' @ fmt score, ''Bio:'']
       \<and> occupied_regions
            (annotate_profile getTextSize fmt img_w img_h dmap profiles_data st (profile_id, score))
          = occupied_regions st @ [(x - 5, y - 5, x + text_w - 5, y + text_h - 5)]
       \<and> image_calls
            (annotate_profile getTextSize fmt img_w img_h dmap profiles_data st (profile_id, score))
          = image_calls st @
              [CvRectangle (qr_x, qr_y) (qr_x + qr_w, qr_y + qr_h)
                 (get_color_for_relevance score) box_thickness,
               CvRectangle (x - 5, y - 5) (x + text_w - 5, y + text_h - 5) text_bg_color FILLED,
               CvPutText (''Name: '' @ name_to_display profiles_data profile_id)
                 (x, y + snd (getTextSize ''Tg'')) font_color,
               CvPutText (''Score: '' @ fmt score)
                 (x, y + snd (getTextSize ''Tg'') + (snd (getTextSize ''Tg'') + 5)) font_color,
               CvPutText ''Bio:''
                 (x, y + snd (getTextSize ''Tg'') + (snd (getTextSize ''Tg'') + 5)
                        + (snd (getTextSize ''Tg'') + 5)) font_color]
       \<and> annotate_loop getTextSize fmt img_w img_h dmap profiles_data st
            ((profile_id, score) # rest)
          = annotate_loop getTextSize fmt img_w img_h dmap profiles_data
              (annotate_profile getTextSize fmt img_w img_h dmap profiles_data st
                 (profile_id, score)) rest"
proof -
  have ls: "profile_lines getTextSize fmt profiles_data (profile_id, score) =
           [''Name: '' @ name_to_display profiles_data profile_id,
            ''Score: '' @ fmt score, ''Bio:'']"
    using assms(2,3) by (simp add: profile_lines_def bio_to_display_def empty_bio_lines)
  have d: "get_text_block_dimensions getTextSize
             (profile_lines getTextSize fmt profiles_data (profile_id, score))
             text_block_max_width = (text_w, text_h)"
    using assms(4) by (simp add: profile_dims_def)
  have ne: "profile_lines getTextSize fmt profiles_data (profile_id, score) \<noteq> []"
    using ls by simp
  have "text_h = 3 * (snd (getTextSize ''Tg'') + 5) + 5"
    using d unfolding ls by (simp add: get_text_block_dimensions_def Let_def)
  then have th: "text_h \<noteq> 0" by presburger
  have tw: "text_w \<noteq> 0" using dims_positive(1)[OF ne d] by simp
  have cr: "candidate_rect (x, y) text_w text_h = (x - 5, y - 5, x + text_w - 5, y + text_h - 5)"
    by (simp add: candidate_rect_def)
  have reg: "occupied_regions
            (annotate_profile getTextSize fmt img_w img_h dmap profiles_data st (profile_id, score))
          = occupied_regions st @ [(x - 5, y - 5, x + text_w - 5, y + text_h - 5)]"
    using annotate_profile_placed[where dmap=dmap and pid=profile_id, OF assms(1) d tw th]
      assms(5) cr by simp
  have calls: "image_calls
            (annotate_profile getTextSize fmt img_w img_h dmap profiles_data st (profile_id, score))
          = image_calls st @
              [CvRectangle (qr_x, qr_y) (qr_x + qr_w, qr_y + qr_h)
                 (get_color_for_relevance score) box_thickness,
               CvRectangle (x - 5, y - 5) (x + text_w - 5, y + text_h - 5) text_bg_color FILLED,
               CvPutText (''Name: '' @ name_to_display profiles_data profile_id)
                 (x, y + snd (getTextSize ''Tg'')) font_color,
               CvPutText (''Score: '' @ fmt score)
                 (x, y + snd (getTextSize ''Tg'') + (snd (getTextSize ''Tg'') + 5)) font_color,
               CvPutText ''Bio:''
                 (x, y + snd (getTextSize ''Tg'') + (snd (getTextSize ''Tg'') + 5)
                        + (snd (getTextSize ''Tg'') + 5)) font_color]"
    using annotate_profile_calls[where dmap=dmap and pid=profile_id,
        OF assms(1) d tw th assms(5) cr]
    unfolding ls by simp
  show ?thesis using ls reg calls by simp
qed

theorem empty_bio_block_drawn_witness:
  "annotate_profile mono_font fmt_half 1024 768 [''a'' \<mapsto> (100, 100, 80, 80)]
        [''a'' \<mapsto> \<lparr>name = Some ''Al'', bio = Some []\<rparr>]
        \<lparr>image_calls = [], occupied_regions = []\<rparr> (''a'', Finite (1 / 2))
      = \<lparr>image_calls =
           [CvRectangle (100, 100) (180, 180) (0, 255, 255) 2,
            CvRectangle (180, 95) (256, 139) (250, 250, 240) (- 1),
            CvPutText ''Name: Al'' (185, 108) (0, 0, 0),
            CvPutText ''Score: 0.50'' (185, 121) (0, 0, 0),
            CvPutText ''Bio:'' (185, 134) (0, 0, 0)],
         occupied_regions = [(180, 95, 256, 139)]\<rparr>"
proof -
  let ?dm = "[''a'' \<mapsto> (100 :: int, 100 :: int, 80 :: int, 80 :: int)]"
  let ?pd = "[''a'' \<mapsto> \<lparr>name = Some ''Al'', bio = Some []\<rparr>]"
  let ?st = "\<lparr>image_calls = [], occupied_regions = []\<rparr>"
  have h1: "?dm ''a'' = Some (100, 100, 80, 80)" by simp
  have h2: "?pd ''a'' = Some \<lparr>name = Some ''Al'', bio = Some []\<rparr>" by simp
  have h3: "bio \<lparr>name = Some ''Al'', bio = Some []\<rparr> = Some []" by simp
  have h4: "profile_dims mono_font fmt_half ?pd (''a'', Finite (1 / 2)) = (76, 44)"
    by (simp add: eval_defs)
  have h5: "place_block (100, 100, 80, 80) 76 44 1024 768 (occupied_regions ?st) = (185, 100)"
    by (simp add: eval_defs)
  have "occupied_regions (annotate_profile mono_font fmt_half 1024 768 ?dm ?pd ?st (''a'', Finite (1 / 2)))
          = [(180, 95, 256, 139)]
      \<and> image_calls (annotate_profile mono_font fmt_half 1024 768 ?dm ?pd ?st (''a'', Finite (1 / 2)))
          = [CvRectangle (100, 100) (180, 180) (0, 255, 255) 2,
            CvRectangle (180, 95) (256, 139) (250, 250, 240) (- 1),
            CvPutText ''Name: Al'' (185, 108) (0, 0, 0),
            CvPutText ''Score: 0.50'' (185, 121) (0, 0, 0),
            CvPutText ''Bio:'' (185, 134) (0, 0, 0)]"
    using empty_bio_block_drawn [where dmap = ?dm, OF h1 h2 h3 h4 h5]
    by (simp add: eval_defs)
  then show ?thesis
    by (cases "annotate_profile mono_font fmt_half 1024 768 ?dm ?pd ?st (''a'', Finite (1 / 2))") simp
qed

end
